theory Spec2Isabelle
  imports Complex_Main
begin

section \<open>The authentication facade of the Island server\<close>

text \<open>
  A shallow embedding of
  \<^verbatim>\<open>monkey_island/cc/services/authentication_service/authentication_facade.py\<close>.
  The facade owns no data of its own: every method reads or writes one of its collaborators
  (the OTP repository, the user datastore, the token parser and generator, the repository
  encryptor, the event queue). A method of the facade becomes a function that takes the
  state of the collaborator it touches and returns its result together with the new state;
  an exception becomes the \<open>Inl\<close> branch of a sum.

  Python strings are modelled as \<open>string\<close>; a monotonic clock reading (a Python float) is
  modelled as a \<open>real\<close>.
\<close>

subsection \<open>Exceptions\<close>

datatype error =
    UnknownRecordError
  | TokenValidationError
  | PyException string

type_synonym instant = real
type_synonym OTP = string

subsection \<open>The OTP repository\<close>

text \<open>
  Modelled from the spec: the OTP repository behind \<^verbatim>\<open>IOTPRepository\<close> (the interface and
  its implementation are not among the source files). The spec gives the contract:
  one record per OTP, keyed by value, holding the expiration instant and the used flag;
  \<^verbatim>\<open>insert(otp, expires_at)\<close> persists the record with \<open>used = false\<close>;
  \<^verbatim>\<open>is_used\<close> and \<^verbatim>\<open>get_expiration\<close> fail with the unknown-record error when the
  OTP is absent; \<^verbatim>\<open>set_used\<close> marks the record used.
\<close>

record otp_record =
  expires_at :: instant
  used :: bool

type_synonym otp_repository = "OTP \<rightharpoonup> otp_record"

definition insert_otp :: "otp_repository \<Rightarrow> OTP \<Rightarrow> instant \<Rightarrow> otp_repository" where
  "insert_otp repo otp expiration = repo(otp \<mapsto> \<lparr>expires_at = expiration, used = False\<rparr>)"

definition otp_is_used :: "otp_repository \<Rightarrow> OTP \<Rightarrow> error + bool" where
  "otp_is_used repo otp =
     (case repo otp of None \<Rightarrow> Inl UnknownRecordError | Some r \<Rightarrow> Inr (used r))"

definition set_used :: "otp_repository \<Rightarrow> OTP \<Rightarrow> error + otp_repository" where
  "set_used repo otp =
     (case repo otp of
        None \<Rightarrow> Inl UnknownRecordError
      | Some r \<Rightarrow> Inr (repo(otp \<mapsto> r\<lparr>used := True\<rparr>)))"

definition get_expiration :: "otp_repository \<Rightarrow> OTP \<Rightarrow> error + instant" where
  "get_expiration repo otp =
     (case repo otp of None \<Rightarrow> Inl UnknownRecordError | Some r \<Rightarrow> Inr (expires_at r))"

subsection \<open>Authorising an OTP\<close>

text \<open>
  \<^verbatim>\<open>_otp_ttl_elapsed\<close>: \<^verbatim>\<open>get_expiration(otp) < time.monotonic()\<close>. The argument
  \<open>now\<close> is the clock reading.
\<close>

definition otp_ttl_elapsed :: "otp_repository \<Rightarrow> instant \<Rightarrow> OTP \<Rightarrow> error + bool" where
  "otp_ttl_elapsed repo now otp =
     (case get_expiration repo otp of Inl e \<Rightarrow> Inl e | Inr expiration \<Rightarrow> Inr (expiration < now))"

text \<open>
  The handler \<^verbatim>\<open>except UnknownRecordError: return False\<close>: the unknown-record error
  becomes the result \<open>False\<close>, any other exception leaves the method.
\<close>

fun except_UnknownRecordError :: "error + bool \<Rightarrow> error + bool" where
  "except_UnknownRecordError (Inl UnknownRecordError) = Inr False"
| "except_UnknownRecordError r = r"

text \<open>
  \<^verbatim>\<open>authorize_otp\<close>, the body under the lock. The repository that is returned is the one
  the call leaves behind, also when the body raised.
\<close>

definition authorize_otp ::
  "otp_repository \<Rightarrow> instant \<Rightarrow> OTP \<Rightarrow> (error + bool) \<times> otp_repository" where
  "authorize_otp repo now otp =
     (case otp_is_used repo otp of
        Inl e \<Rightarrow> (except_UnknownRecordError (Inl e), repo)
      | Inr otp_used \<Rightarrow>
          (case set_used repo otp of
             Inl e \<Rightarrow> (except_UnknownRecordError (Inl e), repo)
           | Inr repo' \<Rightarrow>
               if otp_used then (Inr False, repo')
               else
                 (case otp_ttl_elapsed repo' now otp of
                    Inl e \<Rightarrow> (except_UnknownRecordError (Inl e), repo')
                  | Inr elapsed \<Rightarrow>
                      if \<not> elapsed then (Inr True, repo') else (Inr False, repo'))))"

subsection \<open>Generating an OTP\<close>

definition OTP_EXPIRATION_TIME :: instant where
  "OTP_EXPIRATION_TIME = 2 * 60"

definition ascii_letters :: string where
  "ascii_letters = ''abcdefghijklmnopqrstuvwxyzABCDEFGHIJKLMNOPQRSTUVWXYZ''"

definition digits :: string where
  "digits = ''0123456789''"

text \<open>
  Modelled from the spec: \<^verbatim>\<open>secure_generate_random_string\<close> of
  \<^verbatim>\<open>common.utils.code_utils\<close>, which is not among the source files. It returns \<open>n\<close>
  characters, each drawn from the character set; the draws are the values of the random
  source \<open>rnd\<close>, reduced to an index into the set.
\<close>

definition secure_generate_random_string :: "nat \<Rightarrow> string \<Rightarrow> (nat \<Rightarrow> nat) \<Rightarrow> string" where
  "secure_generate_random_string n character_set rnd =
     map (\<lambda>i. character_set ! (rnd i mod length character_set)) [0..<n]"

definition otp_character_set :: string where
  "otp_character_set = ascii_letters @ digits @ ''._-''"

text \<open>
  \<^verbatim>\<open>generate_otp\<close>: \<open>rnd\<close> is the random source, \<open>now\<close> the clock reading.
\<close>

definition generate_otp ::
  "otp_repository \<Rightarrow> (nat \<Rightarrow> nat) \<Rightarrow> instant \<Rightarrow> OTP \<times> otp_repository" where
  "generate_otp repo rnd now =
     (let otp = secure_generate_random_string 32 otp_character_set rnd;
          expiration_time = now + OTP_EXPIRATION_TIME
      in (otp, insert_otp repo otp expiration_time))"

text \<open>
  Calls on the OTP repository, as a caller of the facade can make them in sequence: the
  repository is reached through \<^verbatim>\<open>generate_otp\<close> and \<^verbatim>\<open>authorize_otp\<close> only (no other
  method of the facade mentions \<^verbatim>\<open>self._otp_repository\<close>).
\<close>

datatype otp_call = Generate_otp "nat \<Rightarrow> nat" instant | Authorize_otp instant OTP

fun otp_call_effect :: "otp_repository \<Rightarrow> otp_call \<Rightarrow> otp_repository" where
  "otp_call_effect repo (Generate_otp rnd now) = snd (generate_otp repo rnd now)"
| "otp_call_effect repo (Authorize_otp now otp) = snd (authorize_otp repo now otp)"

definition otp_calls :: "otp_repository \<Rightarrow> otp_call list \<Rightarrow> otp_repository" where
  "otp_calls repo cs = foldl otp_call_effect repo cs"

fun generates :: "OTP \<Rightarrow> otp_call \<Rightarrow> bool" where
  "generates otp (Generate_otp rnd now) =
     (secure_generate_random_string 32 otp_character_set rnd = otp)"
| "generates otp (Authorize_otp now p) = False"

fun authorizes :: "OTP \<Rightarrow> otp_call \<Rightarrow> bool" where
  "authorizes otp (Generate_otp rnd now) = False"
| "authorizes otp (Authorize_otp now p) = (p = otp)"

text \<open>The used flag of an OTP as the repository holds it (\<open>False\<close> for an unknown OTP).\<close>

definition marked_used :: "otp_repository \<Rightarrow> OTP \<Rightarrow> bool" where
  "marked_used repo otp = (case repo otp of None \<Rightarrow> False | Some r \<Rightarrow> used r)"

subsection \<open>Users and tokens\<close>

text \<open>
  Modelled from the spec: the user record and the User Directory (the \<^verbatim>\<open>User\<close> model of
  this package and the datastore behind \<^verbatim>\<open>self._datastore\<close> are not among the source
  files). A user is an identity record with a uniquifier, an opaque string;
  \<^verbatim>\<open>find_user\<close> by uniquifier returns the first matching user or nothing;
  \<^verbatim>\<open>set_uniquifier\<close> rotates the uniquifier of one user, the new value being drawn by
  the datastore (here the argument \<open>fresh\<close>).
\<close>

record User =
  user_id :: nat
  fs_uniquifier :: string

type_synonym user_datastore = "User list"

definition find_user_by_fs_uniquifier :: "user_datastore \<Rightarrow> string \<Rightarrow> User option" where
  "find_user_by_fs_uniquifier ds uniquifier = find (\<lambda>u. fs_uniquifier u = uniquifier) ds"

definition set_uniquifier :: "user_datastore \<Rightarrow> User \<Rightarrow> string \<Rightarrow> user_datastore" where
  "set_uniquifier ds user fresh =
     map (\<lambda>u. if user_id u = user_id user then u\<lparr>fs_uniquifier := fresh\<rparr> else u) ds"

text \<open>
  Modelled from the spec: tokens and the token parser (\<^verbatim>\<open>.token_parser\<close> and
  \<^verbatim>\<open>.types\<close> are not among the source files). A token is an opaque signed string that
  encodes the subject's uniquifier and an expiry; the model keeps what the string encodes
  and whether it is well formed with a signature that verifies. Parsing fails with the
  token-validation error on a bad signature, a malformed structure or expiry, and gives
  the uniquifier otherwise. The argument \<open>now\<close> is the time of the call.
\<close>

record Token =
  token_subject :: string
  token_expiry :: instant
  token_verifies :: bool

record ParsedToken =
  user_uniquifier :: string

definition token_parser_parse :: "instant \<Rightarrow> Token \<Rightarrow> error + ParsedToken" where
  "token_parser_parse now token =
     (if token_verifies token
      then if token_expiry token < now then Inl TokenValidationError
           else Inr \<lparr>user_uniquifier = token_subject token\<rparr>
      else Inl TokenValidationError)"

text \<open>
  Modelled from the spec: the token generator (\<^verbatim>\<open>token_generator\<close> is not among the
  source files) and the user's own minting of an access token. Both construct a token
  from the uniquifier they are given; \<open>ttl\<close> is the lifetime of the token and \<open>now\<close>
  the time of the call.
\<close>

definition token_generator_generate_token :: "instant \<Rightarrow> instant \<Rightarrow> string \<Rightarrow> Token" where
  "token_generator_generate_token ttl now uniquifier =
     \<lparr>token_subject = uniquifier, token_expiry = now + ttl, token_verifies = True\<rparr>"

definition user_get_auth_token :: "instant \<Rightarrow> instant \<Rightarrow> User \<Rightarrow> Token" where
  "user_get_auth_token ttl now user =
     \<lparr>token_subject = fs_uniquifier user, token_expiry = now + ttl, token_verifies = True\<rparr>"

text \<open>\<^verbatim>\<open>revoke_all_tokens_for_user\<close>\<close>

definition revoke_all_tokens_for_user :: "user_datastore \<Rightarrow> User \<Rightarrow> string \<Rightarrow> user_datastore" where
  "revoke_all_tokens_for_user ds user fresh = set_uniquifier ds user fresh"

text \<open>
  Revocations one after the other: each pair is the user whose tokens are revoked and the
  uniquifier the datastore draws for that user.
\<close>

definition revocations :: "user_datastore \<Rightarrow> (User \<times> string) list \<Rightarrow> user_datastore" where
  "revocations ds revs =
     foldl (\<lambda>ds (user, fresh). revoke_all_tokens_for_user ds user fresh) ds revs"

text \<open>
  \<^verbatim>\<open>_get_refresh_token_owner\<close>: \<^verbatim>\<open>raise Exception("Invalid refresh token")\<close> when the
  datastore finds no user.
\<close>

definition get_refresh_token_owner :: "user_datastore \<Rightarrow> ParsedToken \<Rightarrow> error + User" where
  "get_refresh_token_owner ds refresh_token =
     (case find_user_by_fs_uniquifier ds (user_uniquifier refresh_token) of
        None \<Rightarrow> Inl (PyException ''Invalid refresh token'')
      | Some user \<Rightarrow> Inr user)"

text \<open>
  \<^verbatim>\<open>generate_new_token_pair\<close>. The collaborators it calls are arguments: \<open>parse\<close> is
  \<^verbatim>\<open>self._token_parser.parse\<close> as it answers at the time of the call,
  \<open>get_auth_token\<close> is the user's \<^verbatim>\<open>get_auth_token\<close>, \<open>generate_token\<close> is
  \<^verbatim>\<open>self._token_generator.generate_token\<close>. The method reads the datastore and writes
  nothing; the datastore it leaves behind is returned with the result.
\<close>

definition generate_new_token_pair ::
  "user_datastore \<Rightarrow> (Token \<Rightarrow> error + ParsedToken) \<Rightarrow> (User \<Rightarrow> Token) \<Rightarrow> (string \<Rightarrow> Token)
     \<Rightarrow> Token \<Rightarrow> (error + Token \<times> Token) \<times> user_datastore" where
  "generate_new_token_pair ds parse get_auth_token generate_token refresh_token =
     (case parse refresh_token of
        Inl e \<Rightarrow> (Inl e, ds)
      | Inr parsed_refresh_token \<Rightarrow>
          (case get_refresh_token_owner ds parsed_refresh_token of
             Inl e \<Rightarrow> (Inl e, ds)
           | Inr user \<Rightarrow>
               (let new_access_token = get_auth_token user;
                    new_refresh_token = generate_token (fs_uniquifier user)
                in (Inr (new_access_token, new_refresh_token), ds))))"

subsection \<open>Registration and login\<close>

text \<open>
  The event queue and the repository encryptor are interfaces; the facade's effect on
  them is the sequence of calls it makes. The list \<open>calls\<close> records these calls in the order in
  which they are made.
\<close>

datatype IslandEventTopic = CLEAR_SIMULATION_DATA | RESET_AGENT_CONFIGURATION | SET_ISLAND_MODE

datatype IslandMode = UNSET

datatype collaborator_call =
    Publish IslandEventTopic "(string \<times> IslandMode) list"
  | Reset_key
  | Unlock string

definition publish ::
  "collaborator_call list \<Rightarrow> IslandEventTopic \<Rightarrow> (string \<times> IslandMode) list
     \<Rightarrow> collaborator_call list" where
  "publish calls topic kwargs = calls @ [Publish topic kwargs]"

definition reset_key :: "collaborator_call list \<Rightarrow> collaborator_call list" where
  "reset_key calls = calls @ [Reset_key]"

definition unlock :: "collaborator_call list \<Rightarrow> string \<Rightarrow> collaborator_call list" where
  "unlock calls secret = calls @ [Unlock secret]"

text \<open>
  \<^verbatim>\<open>str.encode()\<close>: a string of the model is the sequence of bytes of its encoding, so
  that encoding returns it as it is.
\<close>

definition str_encode :: "string \<Rightarrow> string" where
  "str_encode s = s"

definition get_secret_from_credentials :: "string \<Rightarrow> string \<Rightarrow> string" where
  "get_secret_from_credentials username password = username @ '':'' @ password"

definition reset_island_data :: "collaborator_call list \<Rightarrow> collaborator_call list" where
  "reset_island_data calls =
     (let calls1 = publish calls CLEAR_SIMULATION_DATA [];
          calls2 = publish calls1 RESET_AGENT_CONFIGURATION []
      in publish calls2 SET_ISLAND_MODE [(''mode'', UNSET)])"

definition reset_repository_encryptor ::
  "collaborator_call list \<Rightarrow> string \<Rightarrow> string \<Rightarrow> collaborator_call list" where
  "reset_repository_encryptor calls username password =
     (let secret = get_secret_from_credentials username password;
          calls1 = reset_key calls
      in unlock calls1 (str_encode secret))"

definition handle_successful_registration ::
  "collaborator_call list \<Rightarrow> string \<Rightarrow> string \<Rightarrow> collaborator_call list" where
  "handle_successful_registration calls username password =
     reset_repository_encryptor (reset_island_data calls) username password"

definition unlock_repository_encryptor ::
  "collaborator_call list \<Rightarrow> string \<Rightarrow> string \<Rightarrow> collaborator_call list" where
  "unlock_repository_encryptor calls username password =
     (let secret = get_secret_from_credentials username password
      in unlock calls (str_encode secret))"

definition handle_successful_login ::
  "collaborator_call list \<Rightarrow> string \<Rightarrow> string \<Rightarrow> collaborator_call list" where
  "handle_successful_login calls username password =
     unlock_repository_encryptor calls username password"

subsection \<open>Concurrent calls of \<^verbatim>\<open>authorize_otp\<close>\<close>

text \<open>
  Calls of \<^verbatim>\<open>authorize_otp\<close> from several threads, interleaved at the granularity of the
  operations of the method: taking the lock (\<^verbatim>\<open>with self._otp_read_lock\<close>),
  \<^verbatim>\<open>otp_is_used\<close>, \<^verbatim>\<open>set_used\<close>, and the decision with the expiry check, after which
  the lock is released and the call returns. A call is at one of these points:
  \<open>Acquire\<close> before it has taken the lock, \<open>Read_used\<close> before \<^verbatim>\<open>otp_is_used\<close>,
  \<open>Mark_used b\<close> before \<^verbatim>\<open>set_used\<close> (\<open>b\<close> is what \<^verbatim>\<open>otp_is_used\<close> returned),
  \<open>Decide b\<close> before the decision, \<open>Returned r\<close> after it has left the method.
\<close>

datatype program_point =
    Acquire
  | Read_used
  | Mark_used bool
  | Decide bool
  | Returned "error + bool"

text \<open>
  One call of \<^verbatim>\<open>authorize_otp\<close> with its argument, and the facade that serves the calls:
  the lock \<^verbatim>\<open>self._otp_read_lock\<close>, the OTP repository, and the calls in progress.
\<close>

record invocation =
  argument :: OTP
  point :: program_point

record facade_state =
  lock_locked :: bool
  otp_repository :: otp_repository
  invocations :: "invocation list"

text \<open>
  A call moves on to the next point; a call that returns or raises leaves the
  \<^verbatim>\<open>with\<close> block, which releases the lock.
\<close>

definition proceed :: "facade_state \<Rightarrow> nat \<Rightarrow> program_point \<Rightarrow> facade_state" where
  "proceed s i pt = s\<lparr>invocations := (invocations s)[i := (invocations s ! i)\<lparr>point := pt\<rparr>]\<rparr>"

definition leave :: "facade_state \<Rightarrow> nat \<Rightarrow> error + bool \<Rightarrow> facade_state" where
  "leave s i result = proceed (s\<lparr>lock_locked := False\<rparr>) i (Returned result)"

text \<open>
  One step of call \<open>i\<close>; \<open>now\<close> is what the clock reads if the step reads it. A call
  that waits for a lock that is held does not move, and neither does a call that has
  returned.
\<close>

definition thread_step :: "facade_state \<Rightarrow> nat \<times> instant \<Rightarrow> facade_state" where
  "thread_step s = (\<lambda>(i, now).
     if i < length (invocations s) then
       (let otp = argument (invocations s ! i) in
        case point (invocations s ! i) of
          Acquire \<Rightarrow>
            if lock_locked s then s else proceed (s\<lparr>lock_locked := True\<rparr>) i Read_used
        | Read_used \<Rightarrow>
            (case otp_is_used (otp_repository s) otp of
               Inl e \<Rightarrow> leave s i (except_UnknownRecordError (Inl e))
             | Inr otp_used \<Rightarrow> proceed s i (Mark_used otp_used))
        | Mark_used otp_used \<Rightarrow>
            (case set_used (otp_repository s) otp of
               Inl e \<Rightarrow> leave s i (except_UnknownRecordError (Inl e))
             | Inr repo' \<Rightarrow> proceed (s\<lparr>otp_repository := repo'\<rparr>) i (Decide otp_used))
        | Decide otp_used \<Rightarrow>
            if otp_used then leave s i (Inr False)
            else
              (case otp_ttl_elapsed (otp_repository s) now otp of
                 Inl e \<Rightarrow> leave s i (except_UnknownRecordError (Inl e))
               | Inr elapsed \<Rightarrow>
                   if \<not> elapsed then leave s i (Inr True) else leave s i (Inr False))
        | Returned result \<Rightarrow> s)
     else s)"





fun steps_left :: "program_point \<Rightarrow> nat" where
  "steps_left Acquire = 4"
| "steps_left Read_used = 3"
| "steps_left (Mark_used b) = 2"
| "steps_left (Decide b) = 1"
| "steps_left (Returned result) = 0"


definition total_steps_left :: "facade_state \<Rightarrow> nat" where
  "total_steps_left s = sum_list (map (\<lambda>c. steps_left (point c)) (invocations s))"











section \<open>Properties\<close>

subsection \<open>What one call of \<^verbatim>\<open>authorize_otp\<close> does\<close>

lemma authorize_otp_absent:
  "repo otp = None \<Longrightarrow> authorize_otp repo now otp = (Inr False, repo)"
  by (simp add: authorize_otp_def otp_is_used_def)

lemma authorize_otp_known:
  "repo otp = Some r \<Longrightarrow>
   authorize_otp repo now otp =
     (Inr (\<not> used r \<and> \<not> expires_at r < now), repo(otp \<mapsto> r\<lparr>used := True\<rparr>))"
  by (simp add: authorize_otp_def otp_is_used_def set_used_def otp_ttl_elapsed_def
      get_expiration_def)

lemma authorize_otp_never_raises: "\<exists>b. fst (authorize_otp repo now otp) = Inr b"
  by (cases "repo otp") (auto simp add: authorize_otp_absent authorize_otp_known)

lemma authorize_otp_other:
  "p \<noteq> otp \<Longrightarrow> snd (authorize_otp repo now p) otp = repo otp"
  by (cases "repo p") (simp_all add: authorize_otp_absent authorize_otp_known)

lemma authorize_otp_sets_flag:
  "repo otp \<noteq> None \<Longrightarrow> marked_used (snd (authorize_otp repo now otp)) otp"
  by (auto simp add: authorize_otp_known marked_used_def)

lemma authorize_otp_marked_used:
  "marked_used repo otp \<Longrightarrow> fst (authorize_otp repo now otp) = Inr False"
  by (cases "repo otp") (simp_all add: authorize_otp_known marked_used_def)

lemma marked_used_authorize_otp:
  "marked_used repo q \<Longrightarrow> marked_used (snd (authorize_otp repo now p)) q"
  by (cases "repo p") (auto simp add: authorize_otp_absent authorize_otp_known marked_used_def)

subsection \<open>What one call of \<^verbatim>\<open>generate_otp\<close> does\<close>

lemma secure_generate_random_string_length:
  "length (secure_generate_random_string n cs rnd) = n"
  by (simp add: secure_generate_random_string_def)

lemma secure_generate_random_string_set:
  "cs \<noteq> [] \<Longrightarrow> set (secure_generate_random_string n cs rnd) \<subseteq> set cs"
  by (auto simp add: secure_generate_random_string_def)

lemma secure_generate_random_string_constant: "secure_generate_random_string 32 otp_character_set (\<lambda>i. 0) = replicate 32 CHR ''a''"
  by (simp add: secure_generate_random_string_def otp_character_set_def ascii_letters_def
      map_replicate_const)


lemma generate_otp_record:
  "generate_otp repo rnd now = (otp, repo') \<Longrightarrow>
   repo' otp = Some \<lparr>expires_at = now + OTP_EXPIRATION_TIME, used = False\<rparr>"
  by (auto simp add: generate_otp_def insert_otp_def Let_def)


subsection \<open>Sequences of calls\<close>

lemma otp_call_effect_untouched:
  "\<not> generates otp c \<Longrightarrow> \<not> authorizes otp c \<Longrightarrow> otp_call_effect repo c otp = repo otp"
  by (cases c) (simp_all add: authorize_otp_other generate_otp_def insert_otp_def Let_def)

lemma otp_calls_untouched:
  "\<forall>c \<in> set cs. \<not> generates otp c \<and> \<not> authorizes otp c \<Longrightarrow> otp_calls repo cs otp = repo otp"
  unfolding otp_calls_def
  by (induction cs arbitrary: repo) (simp_all add: otp_call_effect_untouched)

lemma marked_used_otp_call_effect:
  assumes "marked_used repo otp" and "\<not> generates otp c"
  shows "marked_used (otp_call_effect repo c) otp"
proof (cases c)
  case (Generate_otp rnd now)
  then show ?thesis
    using assms by (simp add: marked_used_def generate_otp_def insert_otp_def Let_def)
next
  case (Authorize_otp now p)
  then show ?thesis
    using assms by (simp add: marked_used_authorize_otp)
qed

lemma marked_used_otp_calls:
  "marked_used repo otp \<Longrightarrow> \<forall>c \<in> set cs. \<not> generates otp c \<Longrightarrow> marked_used (otp_calls repo cs) otp"
  unfolding otp_calls_def
  by (induction cs arbitrary: repo) (simp_all add: marked_used_otp_call_effect)

subsection \<open>Refreshing a token pair\<close>

lemma generate_new_token_pair_parse_error:
  "parse refresh_token = Inl e \<Longrightarrow>
   generate_new_token_pair ds parse get_auth_token generate_token refresh_token = (Inl e, ds)"
  by (simp add: generate_new_token_pair_def)

lemma generate_new_token_pair_no_owner:
  "parse refresh_token = Inr parsed \<Longrightarrow>
   find_user_by_fs_uniquifier ds (user_uniquifier parsed) = None \<Longrightarrow>
   generate_new_token_pair ds parse get_auth_token generate_token refresh_token =
     (Inl (PyException ''Invalid refresh token''), ds)"
  by (simp add: generate_new_token_pair_def get_refresh_token_owner_def)

lemma generate_new_token_pair_owner:
  "parse refresh_token = Inr parsed \<Longrightarrow>
   find_user_by_fs_uniquifier ds (user_uniquifier parsed) = Some user \<Longrightarrow>
   generate_new_token_pair ds parse get_auth_token generate_token refresh_token =
     (Inr (get_auth_token user, generate_token (fs_uniquifier user)), ds)"
  by (simp add: generate_new_token_pair_def get_refresh_token_owner_def)

subsection \<open>Concurrent calls: counting in lists\<close>





subsection \<open>Concurrent calls: one step\<close>

lemma proceed_simps:
  "lock_locked (proceed s i pt) = lock_locked s"
  "otp_repository (proceed s i pt) = otp_repository s"
  "length (invocations (proceed s i pt)) = length (invocations s)"
  "invocations (proceed s i pt) = (invocations s)[i := (invocations s ! i)\<lparr>point := pt\<rparr>]"
  by (simp_all add: proceed_def)








lemma thread_step_argument:
  "j < length (invocations s) \<Longrightarrow>
   argument (invocations (thread_step s x) ! j) = argument (invocations s ! j)"
  by (cases x)
    (simp add: thread_step_def leave_def proceed_simps Let_def nth_list_update
      split: program_point.splits sum.splits)






subsection \<open>Concurrent calls: schedules\<close>






subsection \<open>Concurrent calls: every call returns\<close>



lemma total_steps_left_lock: "total_steps_left (s\<lparr>lock_locked := b\<rparr>) = total_steps_left s"
  by (simp add: total_steps_left_def)

lemma total_steps_left_repo: "total_steps_left (s\<lparr>otp_repository := r\<rparr>) = total_steps_left s"
  by (simp add: total_steps_left_def)





subsection \<open>Concurrent calls: the results\<close>











subsection \<open>Concurrent calls: marking comes before the decision\<close>








subsection \<open>Refreshing a token pair after revocations\<close>

lemma find_user_resolves:
  "find_user_by_fs_uniquifier ds uniquifier \<noteq> None \<longleftrightarrow>
   (\<exists>u \<in> set ds. fs_uniquifier u = uniquifier)"
  by (auto simp add: find_user_by_fs_uniquifier_def find_None_iff)

lemma find_user_found:
  "find_user_by_fs_uniquifier ds uniquifier = Some u \<Longrightarrow>
   u \<in> set ds \<and> fs_uniquifier u = uniquifier"
  by (auto simp add: find_user_by_fs_uniquifier_def find_Some_iff)

lemma set_uniquifier_other:
  assumes "\<exists>u \<in> set ds. user_id u = sid \<and> fs_uniquifier u = uniquifier"
    and "user_id other \<noteq> sid"
  shows "\<exists>u \<in> set (set_uniquifier ds other fresh). user_id u = sid \<and> fs_uniquifier u = uniquifier"
proof -
  from assms(1) obtain u where u: "u \<in> set ds" "user_id u = sid" "fs_uniquifier u = uniquifier"
    by blast
  with assms(2) have "u \<in> set (set_uniquifier ds other fresh)"
    by (force simp add: set_uniquifier_def image_iff)
  with u show ?thesis by blast
qed

lemma revocations_other:
  "\<exists>u \<in> set ds. user_id u = sid \<and> fs_uniquifier u = uniquifier \<Longrightarrow>
   \<forall>(user, fresh) \<in> set revs. user_id user \<noteq> sid \<Longrightarrow>
   \<exists>u \<in> set (revocations ds revs). user_id u = sid \<and> fs_uniquifier u = uniquifier"
  unfolding revocations_def
proof (induction revs arbitrary: ds)
  case Nil
  then show ?case by simp
next
  case (Cons x revs)
  obtain other fresh where x: "x = (other, fresh)" by (cases x)
  with Cons.prems(2) have "user_id other \<noteq> sid" by simp
  with Cons.prems(1)
  have "\<exists>u \<in> set (revoke_all_tokens_for_user ds other fresh).
      user_id u = sid \<and> fs_uniquifier u = uniquifier"
    unfolding revoke_all_tokens_for_user_def by (rule set_uniquifier_other)
  moreover from Cons.prems(2) have "\<forall>(user, fresh) \<in> set revs. user_id user \<noteq> sid"
    by simp
  ultimately show ?case
    using x by (simp add: Cons.IH)
qed

lemma set_uniquifier_subject:
  assumes "fresh \<noteq> uniquifier"
    and "\<forall>u \<in> set ds. fs_uniquifier u = uniquifier \<longrightarrow> user_id u = user_id subject"
  shows "find_user_by_fs_uniquifier (set_uniquifier ds subject fresh) uniquifier = None"
  using assms
  by (auto simp add: find_user_by_fs_uniquifier_def find_None_iff set_uniquifier_def)

lemma generate_new_token_pair_resolves:
  assumes "parse refresh_token = Inr parsed"
    and "find_user_by_fs_uniquifier ds (user_uniquifier parsed) \<noteq> None"
  shows "\<exists>pair. generate_new_token_pair ds parse get_auth_token generate_token refresh_token =
    (Inr pair, ds)"
proof -
  from assms(2) obtain user
    where "find_user_by_fs_uniquifier ds (user_uniquifier parsed) = Some user"
    by blast
  with assms(1) show ?thesis
    by (simp add: generate_new_token_pair_owner)
qed

subsection \<open>The claims\<close>

text \<open>
  Claim C1. An OTP that \<^verbatim>\<open>generate_otp\<close> has generated at time \<open>created\<close> is authorised
  by the first call of \<^verbatim>\<open>authorize_otp\<close> for it, when that call reads a clock that has
  not passed the expiration (\<open>created + OTP_EXPIRATION_TIME\<close>), and every later call for
  it returns false, whatever the time \<open>later\<close>. Between generation and first call the
  facade may serve any calls \<open>before\<close> for other OTPs; after the first call it may serve
  any calls \<open>after\<close>, calls of \<^verbatim>\<open>authorize_otp\<close> for this OTP among them. The random
  source is taken not to produce the value of this OTP a second time.
\<close>

theorem generate_otp_authorized_once:
  assumes gen: "generate_otp repo rnd created = (otp, repo1)"
    and before: "\<forall>c \<in> set before. \<not> generates otp c \<and> \<not> authorizes otp c"
    and within: "\<not> created + OTP_EXPIRATION_TIME < now"
    and first: "authorize_otp (otp_calls repo1 before) now otp = (result, repo2)"
    and after: "\<forall>c \<in> set after. \<not> generates otp c"
  shows "result = Inr True \<and> fst (authorize_otp (otp_calls repo2 after) later otp) = Inr False"
proof -
  let ?r = "\<lparr>expires_at = created + OTP_EXPIRATION_TIME, used = False\<rparr>"
  have "repo1 otp = Some ?r"
    using gen by (rule generate_otp_record)
  with before have stored: "otp_calls repo1 before otp = Some ?r"
    by (simp add: otp_calls_untouched)
  from stored within first have "result = Inr True"
    by (simp add: authorize_otp_known)
  moreover
  from stored first have "marked_used repo2 otp"
    using authorize_otp_sets_flag [of "otp_calls repo1 before" otp now] by simp
  then have "marked_used (otp_calls repo2 after) otp"
    using after by (rule marked_used_otp_calls)
  then have "fst (authorize_otp (otp_calls repo2 after) later otp) = Inr False"
    by (rule authorize_otp_marked_used)
  ultimately show ?thesis by simp
qed

theorem generate_otp_authorized_once_witness:
  "generate_otp Map.empty (\<lambda>i. 0) 0 =
     (replicate 32 CHR ''a'', [replicate 32 CHR ''a'' \<mapsto> \<lparr>expires_at = 120, used = False\<rparr>]) \<and>
   \<not> generates (replicate 32 CHR ''a'') (Authorize_otp 60 ''other'') \<and>
   \<not> authorizes (replicate 32 CHR ''a'') (Authorize_otp 60 ''other'') \<and>
   \<not> (0 + OTP_EXPIRATION_TIME < (120 :: real)) \<and>
   authorize_otp (otp_calls [replicate 32 CHR ''a'' \<mapsto> \<lparr>expires_at = 120, used = False\<rparr>]
       [Authorize_otp 60 ''other'']) 120 (replicate 32 CHR ''a'') =
     (Inr True, [replicate 32 CHR ''a'' \<mapsto> \<lparr>expires_at = 120, used = True\<rparr>]) \<and>
   \<not> generates (replicate 32 CHR ''a'') (Authorize_otp 121 (replicate 32 CHR ''a'')) \<and>
   fst (authorize_otp (otp_calls [replicate 32 CHR ''a'' \<mapsto> \<lparr>expires_at = 120, used = True\<rparr>]
       [Authorize_otp 121 (replicate 32 CHR ''a'')]) 122 (replicate 32 CHR ''a'')) = Inr False"
proof -
  let ?otp = "replicate 32 CHR ''a''"
  let ?repo1 = "[?otp \<mapsto> \<lparr>expires_at = 120, used = False\<rparr>]"
  let ?repo2 = "[?otp \<mapsto> \<lparr>expires_at = 120, used = True\<rparr>]"
  have gen: "generate_otp Map.empty (\<lambda>i. 0) 0 = (?otp, ?repo1)"
    by (simp add: generate_otp_def secure_generate_random_string_constant insert_otp_def OTP_EXPIRATION_TIME_def Let_def)
  have ne: "?otp \<noteq> ''other''"
    by (simp add: eval_nat_numeral)
  have before: "\<forall>c \<in> set [Authorize_otp 60 ''other'']. \<not> generates ?otp c \<and> \<not> authorizes ?otp c"
    using ne by simp
  have within: "\<not> (0 + OTP_EXPIRATION_TIME < (120 :: real))"
    by (simp add: OTP_EXPIRATION_TIME_def)
  have other: "otp_calls ?repo1 [Authorize_otp 60 ''other''] = ?repo1"
    using ne by (simp add: otp_calls_def authorize_otp_absent)
  have first: "authorize_otp (otp_calls ?repo1 [Authorize_otp 60 ''other'']) 120 ?otp =
      (Inr True, ?repo2)"
    unfolding other by (simp add: authorize_otp_known)
  have after: "\<forall>c \<in> set [Authorize_otp 121 ?otp]. \<not> generates ?otp c"
    by simp
  from generate_otp_authorized_once [OF gen before within first after, of 122] gen before within first after
  show ?thesis by simp
qed

text \<open>
  Claim C2, amended. For an OTP in the repository, a call of \<^verbatim>\<open>authorize_otp\<close> that
  reads a clock strictly after the expiration returns false, also when it is the first
  call; a call that reads exactly the expiration instant is not treated as expired: it
  returns true when the OTP has not been used before, false otherwise.
\<close>

theorem authorize_otp_expiry:
  assumes "repo otp = Some r"
  shows "(expires_at r < now \<longrightarrow> fst (authorize_otp repo now otp) = Inr False) \<and>
         (now = expires_at r \<longrightarrow> fst (authorize_otp repo now otp) = Inr (\<not> used r))"
  using assms by (simp add: authorize_otp_known)

theorem authorize_otp_expiry_witness:
  "[''otp'' \<mapsto> \<lparr>expires_at = 5, used = False\<rparr>] ''otp'' = Some \<lparr>expires_at = 5, used = False\<rparr> \<and>
   fst (authorize_otp [''otp'' \<mapsto> \<lparr>expires_at = 5, used = False\<rparr>] 6 ''otp'') = Inr False \<and>
   fst (authorize_otp [''otp'' \<mapsto> \<lparr>expires_at = 5, used = False\<rparr>] 5 ''otp'') = Inr True"
  using authorize_otp_expiry [of "[''otp'' \<mapsto> \<lparr>expires_at = 5, used = False\<rparr>]" "''otp''"
      "\<lparr>expires_at = 5, used = False\<rparr>" 6]
    authorize_otp_expiry [of "[''otp'' \<mapsto> \<lparr>expires_at = 5, used = False\<rparr>]" "''otp''"
      "\<lparr>expires_at = 5, used = False\<rparr>" 5]
  by simp

text \<open>
  The claim C2 as the specification states it fails at the boundary: the first call for an
  unused OTP made exactly at its expiration instant returns true, since
  \<^verbatim>\<open>_otp_ttl_elapsed\<close> compares with \<open><\<close>.
\<close>

theorem authorize_otp_at_expiration_instant:
  "fst (authorize_otp [''otp'' \<mapsto> \<lparr>expires_at = 5, used = False\<rparr>] 5 ''otp'') = Inr True"
  by (simp add: authorize_otp_known)



text \<open>
  Claim C4. A refresh token that parses, and whose uniquifier resolves to no user, makes
  \<^verbatim>\<open>generate_new_token_pair\<close> raise a plain \<^verbatim>\<open>Exception("Invalid refresh token")\<close>,
  which is not the token-validation error. Here the token was issued for a user whose
  tokens have been revoked since. (When parsing fails, the parser's error leaves the
  method as it is: \<open>generate_new_token_pair_parse_error\<close>.)
\<close>

theorem generate_new_token_pair_revoked_owner:
  "token_parser_parse 10 (token_generator_generate_token 1800 0 ''old'') =
     Inr \<lparr>user_uniquifier = ''old''\<rparr> \<and>
   fst (generate_new_token_pair
          (revoke_all_tokens_for_user [\<lparr>user_id = 1, fs_uniquifier = ''old''\<rparr>]
             \<lparr>user_id = 1, fs_uniquifier = ''old''\<rparr> ''new'')
          (token_parser_parse 10) (user_get_auth_token 900 10)
          (token_generator_generate_token 1800 10)
          (token_generator_generate_token 1800 0 ''old'')) =
     Inl (PyException ''Invalid refresh token'')"
  by (simp add: generate_new_token_pair_def get_refresh_token_owner_def
      find_user_by_fs_uniquifier_def revoke_all_tokens_for_user_def set_uniquifier_def
      token_parser_parse_def token_generator_generate_token_def)

text \<open>
  Claim C5. For an OTP that is not in the repository, the repository's lookup raises the
  unknown-record error, and \<^verbatim>\<open>authorize_otp\<close> returns false without raising and leaves
  the repository as it was.
\<close>

theorem authorize_otp_unknown_otp: 
  assumes "repo otp = None"
  shows "otp_is_used repo otp = Inl UnknownRecordError \<and>
         authorize_otp repo now otp = (Inr False, repo)"
  using assms by (simp add: authorize_otp_absent otp_is_used_def)

theorem authorize_otp_unknown_otp_witness:
  "(Map.empty :: otp_repository) ''abc'' = None \<and>
   otp_is_used Map.empty ''abc'' = Inl UnknownRecordError \<and>
   authorize_otp Map.empty 0 ''abc'' = (Inr False, Map.empty)"
  using authorize_otp_unknown_otp [of Map.empty "''abc''" 0] by simp




text \<open>
  Claim C7, amended. A successful \<^verbatim>\<open>generate_new_token_pair\<close> leaves the datastore as it
  was, so that the refresh token it consumed is not invalidated by its use. As long as the
  parser still answers for the token as it did (the token has not expired in the
  meantime), a later call with the same token succeeds again: on the datastore the first
  call left, on the datastore after any revocations \<open>revs\<close> for other users, and on any
  later datastore in which the token's uniquifier still resolves to a user. It succeeds
  until \<^verbatim>\<open>revoke_all_tokens_for_user\<close> is applied to the token's subject: when the subject
  alone held the uniquifier and the datastore draws another one, the call that follows
  the revocation fails.
\<close>

theorem generate_new_token_pair_frame:
  assumes first: "generate_new_token_pair ds parse get_auth_token generate_token refresh_token =
      (Inr pair, ds')"
    and parsed: "parse refresh_token = Inr parsed"
    and owner: "find_user_by_fs_uniquifier ds (user_uniquifier parsed) = Some subject"
    and still: "parse' refresh_token = parse refresh_token"
  shows "ds' = ds \<and>
    (\<exists>pair'. generate_new_token_pair ds' parse' get_auth_token' generate_token' refresh_token =
       (Inr pair', ds')) \<and>
    ((\<forall>(user, fresh) \<in> set revs. user_id user \<noteq> user_id subject) \<longrightarrow>
       (\<exists>pair'. generate_new_token_pair (revocations ds' revs) parse' get_auth_token'
          generate_token' refresh_token = (Inr pair', revocations ds' revs))) \<and>
    (find_user_by_fs_uniquifier later (user_uniquifier parsed) \<noteq> None \<longrightarrow>
       (\<exists>pair'. generate_new_token_pair later parse' get_auth_token' generate_token'
          refresh_token = (Inr pair', later))) \<and>
    (fresh \<noteq> user_uniquifier parsed \<and>
     (\<forall>u \<in> set ds. fs_uniquifier u = user_uniquifier parsed \<longrightarrow> user_id u = user_id subject) \<longrightarrow>
       generate_new_token_pair (revoke_all_tokens_for_user ds' subject fresh) parse'
          get_auth_token' generate_token' refresh_token =
         (Inl (PyException ''Invalid refresh token''),
          revoke_all_tokens_for_user ds' subject fresh))"
proof -
  from first have frame: "ds' = ds"
    by (auto simp add: generate_new_token_pair_def Let_def split: sum.splits)
  from parsed still have parsed': "parse' refresh_token = Inr parsed"
    by simp
  note resolves = generate_new_token_pair_resolves [where parse = parse'
      and refresh_token = refresh_token and parsed = parsed
      and get_auth_token = get_auth_token' and generate_token = generate_token', OF parsed']
  from owner have held: "\<exists>u \<in> set ds. user_id u = user_id subject \<and>
      fs_uniquifier u = user_uniquifier parsed"
    using find_user_found [of ds "user_uniquifier parsed" subject] by blast
  have 1: "\<exists>pair'. generate_new_token_pair ds' parse' get_auth_token' generate_token'
      refresh_token = (Inr pair', ds')"
    unfolding frame using owner by (intro resolves) simp
  have 2: "\<exists>pair'. generate_new_token_pair (revocations ds' revs) parse' get_auth_token'
      generate_token' refresh_token = (Inr pair', revocations ds' revs)"
    if others: "\<forall>(user, fresh) \<in> set revs. user_id user \<noteq> user_id subject"
  proof -
    from held others
    have "\<exists>u \<in> set (revocations ds revs). user_id u = user_id subject \<and>
        fs_uniquifier u = user_uniquifier parsed"
      by (rule revocations_other)
    then have "find_user_by_fs_uniquifier (revocations ds revs) (user_uniquifier parsed) \<noteq> None"
      unfolding find_user_resolves by blast
    then show ?thesis
      unfolding frame by (rule resolves)
  qed
  have 3: "\<exists>pair'. generate_new_token_pair later parse' get_auth_token' generate_token'
      refresh_token = (Inr pair', later)"
    if "find_user_by_fs_uniquifier later (user_uniquifier parsed) \<noteq> None"
    using that by (rule resolves)
  have 4: "generate_new_token_pair (revoke_all_tokens_for_user ds' subject fresh) parse'
      get_auth_token' generate_token' refresh_token =
        (Inl (PyException ''Invalid refresh token''),
         revoke_all_tokens_for_user ds' subject fresh)"
    if "fresh \<noteq> user_uniquifier parsed \<and>
      (\<forall>u \<in> set ds. fs_uniquifier u = user_uniquifier parsed \<longrightarrow> user_id u = user_id subject)"
  proof -
    from that
    have "find_user_by_fs_uniquifier (set_uniquifier ds subject fresh) (user_uniquifier parsed) = None"
      by (intro set_uniquifier_subject) simp_all
    with parsed' show ?thesis
      unfolding frame revoke_all_tokens_for_user_def
      by (rule generate_new_token_pair_no_owner)
  qed
  from frame 1 2 3 4 show ?thesis
    by blast
qed

theorem generate_new_token_pair_frame_witness:
  "generate_new_token_pair
      [\<lparr>user_id = 1, fs_uniquifier = ''u''\<rparr>, \<lparr>user_id = 2, fs_uniquifier = ''v''\<rparr>]
      (token_parser_parse 10) (user_get_auth_token 900 10)
      (token_generator_generate_token 1800 10)
      (token_generator_generate_token 1800 0 ''u'') =
     (Inr (user_get_auth_token 900 10 \<lparr>user_id = 1, fs_uniquifier = ''u''\<rparr>,
           token_generator_generate_token 1800 10 ''u''),
      [\<lparr>user_id = 1, fs_uniquifier = ''u''\<rparr>, \<lparr>user_id = 2, fs_uniquifier = ''v''\<rparr>]) \<and>
   token_parser_parse 10 (token_generator_generate_token 1800 0 ''u'') =
     Inr \<lparr>user_uniquifier = ''u''\<rparr> \<and>
   find_user_by_fs_uniquifier
      [\<lparr>user_id = 1, fs_uniquifier = ''u''\<rparr>, \<lparr>user_id = 2, fs_uniquifier = ''v''\<rparr>] ''u'' =
     Some \<lparr>user_id = 1, fs_uniquifier = ''u''\<rparr> \<and>
   token_parser_parse 20 (token_generator_generate_token 1800 0 ''u'') =
     token_parser_parse 10 (token_generator_generate_token 1800 0 ''u'') \<and>
   revocations [\<lparr>user_id = 1, fs_uniquifier = ''u''\<rparr>, \<lparr>user_id = 2, fs_uniquifier = ''v''\<rparr>]
      [(\<lparr>user_id = 2, fs_uniquifier = ''v''\<rparr>, ''w'')] =
     [\<lparr>user_id = 1, fs_uniquifier = ''u''\<rparr>, \<lparr>user_id = 2, fs_uniquifier = ''w''\<rparr>] \<and>
   (\<exists>pair'. generate_new_token_pair
      [\<lparr>user_id = 1, fs_uniquifier = ''u''\<rparr>, \<lparr>user_id = 2, fs_uniquifier = ''w''\<rparr>]
      (token_parser_parse 20) (user_get_auth_token 900 20)
      (token_generator_generate_token 1800 20)
      (token_generator_generate_token 1800 0 ''u'') =
     (Inr pair', [\<lparr>user_id = 1, fs_uniquifier = ''u''\<rparr>, \<lparr>user_id = 2, fs_uniquifier = ''w''\<rparr>])) \<and>
   generate_new_token_pair
      (revoke_all_tokens_for_user
        [\<lparr>user_id = 1, fs_uniquifier = ''u''\<rparr>, \<lparr>user_id = 2, fs_uniquifier = ''v''\<rparr>]
        \<lparr>user_id = 1, fs_uniquifier = ''u''\<rparr> ''new'')
      (token_parser_parse 20) (user_get_auth_token 900 20)
      (token_generator_generate_token 1800 20)
      (token_generator_generate_token 1800 0 ''u'') =
     (Inl (PyException ''Invalid refresh token''),
      [\<lparr>user_id = 1, fs_uniquifier = ''new''\<rparr>, \<lparr>user_id = 2, fs_uniquifier = ''v''\<rparr>])"
proof -
  let ?alice = "\<lparr>user_id = 1, fs_uniquifier = ''u''\<rparr>"
  let ?bob = "\<lparr>user_id = 2, fs_uniquifier = ''v''\<rparr>"
  let ?ds = "[?alice, ?bob]"
  let ?token = "token_generator_generate_token 1800 0 ''u''"
  let ?revs = "[(?bob, ''w'')]"
  have first: "generate_new_token_pair ?ds (token_parser_parse 10) (user_get_auth_token 900 10)
      (token_generator_generate_token 1800 10) ?token =
     (Inr (user_get_auth_token 900 10 ?alice, token_generator_generate_token 1800 10 ''u''), ?ds)"
    by (simp add: generate_new_token_pair_def get_refresh_token_owner_def
      find_user_by_fs_uniquifier_def token_parser_parse_def token_generator_generate_token_def)
  have parsed: "token_parser_parse 10 ?token = Inr \<lparr>user_uniquifier = ''u''\<rparr>"
    by (simp add: token_parser_parse_def token_generator_generate_token_def)
  have owner: "find_user_by_fs_uniquifier ?ds (user_uniquifier \<lparr>user_uniquifier = ''u''\<rparr>) =
      Some ?alice"
    by (simp add: find_user_by_fs_uniquifier_def)
  have still: "token_parser_parse 20 ?token = token_parser_parse 10 ?token"
    by (simp add: token_parser_parse_def token_generator_generate_token_def)
  have revs: "revocations ?ds ?revs = [?alice, \<lparr>user_id = 2, fs_uniquifier = ''w''\<rparr>]"
    by (simp add: revocations_def revoke_all_tokens_for_user_def set_uniquifier_def)
  have revoked: "revoke_all_tokens_for_user ?ds ?alice ''new'' =
      [\<lparr>user_id = 1, fs_uniquifier = ''new''\<rparr>, ?bob]"
    by (simp add: revoke_all_tokens_for_user_def set_uniquifier_def)
  have others: "\<forall>(user, fresh) \<in> set ?revs. user_id user \<noteq> user_id ?alice"
    by simp
  have only: "''new'' \<noteq> user_uniquifier \<lparr>user_uniquifier = ''u''\<rparr> \<and>
      (\<forall>u \<in> set ?ds. fs_uniquifier u = user_uniquifier \<lparr>user_uniquifier = ''u''\<rparr> \<longrightarrow>
         user_id u = user_id ?alice)"
    by simp
  note inst = generate_new_token_pair_frame [where ds = ?ds and parse = "token_parser_parse 10"
      and refresh_token = ?token and parsed = "\<lparr>user_uniquifier = ''u''\<rparr>"
      and parse' = "token_parser_parse 20" and get_auth_token' = "user_get_auth_token 900 20"
      and generate_token' = "token_generator_generate_token 1800 20"
      and revs = ?revs and fresh = "''new''", OF first parsed owner still]
  note replay = inst [THEN conjunct2, THEN conjunct2, THEN conjunct1, THEN mp, OF others]
  note stop = inst [THEN conjunct2, THEN conjunct2, THEN conjunct2, THEN conjunct2, THEN mp,
      OF only]
  have a: "\<exists>pair'. generate_new_token_pair [?alice, \<lparr>user_id = 2, fs_uniquifier = ''w''\<rparr>]
      (token_parser_parse 20) (user_get_auth_token 900 20)
      (token_generator_generate_token 1800 20) ?token =
     (Inr pair', [?alice, \<lparr>user_id = 2, fs_uniquifier = ''w''\<rparr>])"
    using replay unfolding revs .
  have b: "generate_new_token_pair (revoke_all_tokens_for_user ?ds ?alice ''new'')
      (token_parser_parse 20) (user_get_auth_token 900 20)
      (token_generator_generate_token 1800 20) ?token =
     (Inl (PyException ''Invalid refresh token''),
      [\<lparr>user_id = 1, fs_uniquifier = ''new''\<rparr>, ?bob])"
    using stop revoked by simp
  have owner': "find_user_by_fs_uniquifier ?ds ''u'' = Some ?alice"
    using owner by simp
  from first parsed owner' still revs a b show ?thesis
    by (intro conjI)
qed

text \<open>
  The claim C7 as the specification states it fails once the token has expired: with no
  revocation and the datastore unchanged, the first call (at time 10) succeeds and a
  later call with the same token (at time 1801, past its expiry 1800) raises the
  token-validation error.
\<close>

theorem generate_new_token_pair_expired_replay:
  "generate_new_token_pair [\<lparr>user_id = 1, fs_uniquifier = ''u''\<rparr>]
      (token_parser_parse 10) (user_get_auth_token 900 10)
      (token_generator_generate_token 1800 10)
      (token_generator_generate_token 1800 0 ''u'') =
     (Inr (user_get_auth_token 900 10 \<lparr>user_id = 1, fs_uniquifier = ''u''\<rparr>,
           token_generator_generate_token 1800 10 ''u''),
      [\<lparr>user_id = 1, fs_uniquifier = ''u''\<rparr>]) \<and>
   generate_new_token_pair [\<lparr>user_id = 1, fs_uniquifier = ''u''\<rparr>]
      (token_parser_parse 1801) (user_get_auth_token 900 1801)
      (token_generator_generate_token 1800 1801)
      (token_generator_generate_token 1800 0 ''u'') =
     (Inl TokenValidationError, [\<lparr>user_id = 1, fs_uniquifier = ''u''\<rparr>])"
  by (simp add: generate_new_token_pair_def get_refresh_token_owner_def
      find_user_by_fs_uniquifier_def
      token_parser_parse_def token_generator_generate_token_def)

text \<open>
  Claim C8. A call of \<^verbatim>\<open>generate_otp\<close> returns a value of 32 characters (so, at least
  32), each a letter, a digit or one of \<open>._-\<close>; the expiration is the clock reading plus
  \<^verbatim>\<open>OTP_EXPIRATION_TIME\<close>, which is 120 seconds; the repository that the call leaves
  behind holds the record of this value with that expiration and \<open>used = False\<close>.
\<close>

theorem generate_otp_persists:
  assumes "generate_otp repo rnd now = (otp, repo')"
  shows "length otp = 32 \<and> 32 \<le> length otp \<and>
         set otp \<subseteq> set (ascii_letters @ digits @ ''._-'') \<and>
         OTP_EXPIRATION_TIME = 120 \<and>
         repo' = insert_otp repo otp (now + 120) \<and>
         repo' otp = Some \<lparr>expires_at = now + 120, used = False\<rparr>"
proof -
  have otp: "otp = secure_generate_random_string 32 otp_character_set rnd"
    and repo': "repo' = insert_otp repo otp (now + OTP_EXPIRATION_TIME)"
    using assms by (auto simp add: generate_otp_def Let_def)
  have ne: "otp_character_set \<noteq> []"
    by (simp add: otp_character_set_def ascii_letters_def)
  have "set otp \<subseteq> set otp_character_set"
    unfolding otp using ne by (rule secure_generate_random_string_set)
  then have "set otp \<subseteq> set (ascii_letters @ digits @ ''._-'')"
    by (simp only: otp_character_set_def)
  moreover have "length otp = 32"
    unfolding otp by (rule secure_generate_random_string_length)
  moreover have "OTP_EXPIRATION_TIME = 120"
    by (simp add: OTP_EXPIRATION_TIME_def)
  ultimately show ?thesis
    using repo' by (simp add: insert_otp_def)
qed

theorem generate_otp_persists_witness:
  "generate_otp Map.empty (\<lambda>i. 0) 1000 =
     (replicate 32 CHR ''a'', [replicate 32 CHR ''a'' \<mapsto> \<lparr>expires_at = 1120, used = False\<rparr>]) \<and>
   length (replicate 32 CHR ''a'') = 32 \<and>
   set (replicate 32 CHR ''a'') \<subseteq> set (ascii_letters @ digits @ ''._-'')"
proof -
  have gen: "generate_otp Map.empty (\<lambda>i. 0) 1000 =
     (replicate 32 CHR ''a'', [replicate 32 CHR ''a'' \<mapsto> \<lparr>expires_at = 1120, used = False\<rparr>])"
    by (simp add: generate_otp_def secure_generate_random_string_constant insert_otp_def OTP_EXPIRATION_TIME_def Let_def)
  from generate_otp_persists [OF gen] gen show ?thesis by simp
qed

text \<open>
  Claim C9. \<^verbatim>\<open>handle_successful_registration\<close> makes five calls, in this order: it
  publishes the clear-simulation-data event, the reset-agent-configuration event and the
  set-island-mode event with mode unset, then resets the key of the repository encryptor,
  then unlocks the encryptor with the secret \<open>username @ '':'' @ password\<close>.
\<close>

theorem handle_successful_registration_calls:
  "handle_successful_registration calls username password =
     calls @ [Publish CLEAR_SIMULATION_DATA [],
              Publish RESET_AGENT_CONFIGURATION [],
              Publish SET_ISLAND_MODE [(''mode'', UNSET)],
              Reset_key,
              Unlock (username @ '':'' @ password)]"
  by (simp add: handle_successful_registration_def reset_repository_encryptor_def
      reset_island_data_def publish_def reset_key_def unlock_def str_encode_def
      get_secret_from_credentials_def Let_def)

text \<open>
  Claim C10. The secret is not injective in the pair of credentials: the different pairs
  \<open>(''a:b'', ''c'')\<close> and \<open>(''a'', ''b:c'')\<close> give the same secret \<open>''a:b:c''\<close>, so that
  \<^verbatim>\<open>handle_successful_login\<close> makes the same call of \<^verbatim>\<open>unlock\<close> for both, the one that
  \<^verbatim>\<open>handle_successful_registration\<close> ends with.
\<close>

theorem get_secret_from_credentials_not_injective:
  "(''a:b'', ''c'') \<noteq> (''a'', ''b:c'') \<and>
   get_secret_from_credentials ''a:b'' ''c'' = get_secret_from_credentials ''a'' ''b:c'' \<and>
   \<not> inj (\<lambda>(username, password). get_secret_from_credentials username password) \<and>
   handle_successful_login calls ''a'' ''b:c'' = handle_successful_login calls ''a:b'' ''c'' \<and>
   last (handle_successful_registration calls ''a:b'' ''c'') = Unlock ''a:b:c'' \<and>
   handle_successful_login calls' ''a'' ''b:c'' = calls' @ [Unlock ''a:b:c'']"
proof -
  have eq: "get_secret_from_credentials ''a:b'' ''c'' = get_secret_from_credentials ''a'' ''b:c''"
    by (simp add: get_secret_from_credentials_def)
  have "\<not> inj (\<lambda>(username, password). get_secret_from_credentials username password)"
  proof
    assume "inj (\<lambda>(username, password). get_secret_from_credentials username password)"
    then have "(''a:b'', ''c'') = (''a'', ''b:c'')"
      using eq by (auto dest!: injD [where x = "(''a:b'', ''c'')" and y = "(''a'', ''b:c'')"])
    then show False by simp
  qed
  then show ?thesis
    by (simp add: handle_successful_registration_def reset_repository_encryptor_def
      handle_successful_login_def unlock_repository_encryptor_def
      unlock_def str_encode_def get_secret_from_credentials_def Let_def)
qed

end
